theory Spec2Isabelle
  imports Complex_Main "HOL-Library.Multiset" "HOL-Library.List_Lexorder" "HOL-Library.Char_ord"
begin

section \<open>The unit converter of \<^verbatim>\<open>conventor.py\<close>\<close>

text \<open>
  The functional core of \<^verbatim>\<open>conventor.py\<close>: the table \<^verbatim>\<open>unit_conversions\<close>
  and \<^verbatim>\<open>convert_units\<close>, the account file with \<^verbatim>\<open>register_user\<close> and
  \<^verbatim>\<open>authenticate_user\<close>, the feedback file with \<^verbatim>\<open>load_feedback\<close>, and the
  filter and sort of \<^verbatim>\<open>review_section\<close>.

  Conventions of the embedding.
  \<^item> The conversion engine is given twice. In \<open>convert_units\<close> a Python
    \<^verbatim>\<open>float\<close> is a \<open>real\<close> and arithmetic is exact: its theorems speak about
    the formulas the code evaluates. In \<open>convert_units_double\<close> a \<^verbatim>\<open>float\<close> is
    an IEEE 754 binary64 number and every operation rounds: its theorems speak about
    the error of the results. A decimal literal such as \<^verbatim>\<open>1.60218e-19\<close> is the
    rational \<open>160218 / 10 ^ 24\<close>, rounded in the second case.
  \<^item> A Python \<^verbatim>\<open>str\<close> is the \<open>string\<close> of the bytes of its UTF-8 encoding, so
    that \<^verbatim>\<open>len\<close> is not \<open>length\<close>; \<^verbatim>\<open>None\<close> is \<open>None\<close>.
  \<^item> An exception that leaves a function is the left summand of its result.
\<close>

datatype py_error =
    KeyError | ZeroDivisionError | TypeError
  | FileNotFoundError | JSONDecodeError | UnicodeDecodeError | RecursionError


subsection \<open>The unit registry\<close>

text \<open>
  \<^verbatim>\<open>unit_conversions\<close> is a dict of dicts. Six categories map a unit to a number;
  \<^verbatim>\<open>"Temperature"\<close> maps a unit to a dict of two lambdas, \<^verbatim>\<open>to_base\<close> and
  \<^verbatim>\<open>from_base\<close>. Dicts keep their insertion order, so each is an association list.
  The third key of \<^verbatim>\<open>"Length"\<close> is a string of two characters outside ASCII,
  five bytes in the source file.
\<close>

datatype unit_table =
    Factors "(string \<times> real) list"
  | Scales "(string \<times> (real \<Rightarrow> real) \<times> (real \<Rightarrow> real)) list"

definition length_unit3 :: string where
  "length_unit3 = [CHR 0xE2, CHR 0x88, CHR 0x9A, CHR 0xC3, CHR 0x96]"

definition energy_factors :: "(string \<times> real) list" where
  "energy_factors = [(''J'', 1), (''eV'', 160218 / 10 ^ 24), (''Ha'', 435974 / 10 ^ 23)]"

definition length_factors :: "(string \<times> real) list" where
  "length_factors =
     [(''m'', 1), (''nm'', 1 / 10 ^ 9), (length_unit3, 1 / 10 ^ 10), (''feet'', 3048 / 10 ^ 4)]"

definition time_factors :: "(string \<times> real) list" where
  "time_factors = [(''s'', 1), (''fs'', 1 / 10 ^ 15), (''day'', 86400)]"

definition frequency_factors :: "(string \<times> real) list" where
  "frequency_factors = [(''Hz'', 1), (''THz'', 10 ^ 12)]"

definition mass_factors :: "(string \<times> real) list" where
  "mass_factors = [(''kg'', 1), (''amu'', 166054 / 10 ^ 32), (''pounds'', 453592 / 10 ^ 6)]"

definition speed_factors :: "(string \<times> real) list" where
  "speed_factors = [(''m/s'', 1), (''mph'', 44704 / 10 ^ 5), (''km/h'', 277778 / 10 ^ 6)]"

definition temperature_scales :: "(string \<times> (real \<Rightarrow> real) \<times> (real \<Rightarrow> real)) list" where
  "temperature_scales =
     [(''C'', (\<lambda>x. x, \<lambda>x. x)),
      (''F'', (\<lambda>x. (x - 32) * 5 / 9, \<lambda>x. x * 9 / 5 + 32)),
      (''K'', (\<lambda>x. x - 27315 / 100, \<lambda>x. x + 27315 / 100))]"

definition unit_conversions :: "(string \<times> unit_table) list" where
  "unit_conversions =
     [(''Energy'', Factors energy_factors),
      (''Length'', Factors length_factors),
      (''Time'', Factors time_factors),
      (''Frequency'', Factors frequency_factors),
      (''Mass'', Factors mass_factors),
      (''Speed'', Factors speed_factors),
      (''Temperature'', Scales temperature_scales)]"


subsection \<open>Rounding\<close>

text \<open>
  \<^verbatim>\<open>round(x, n)\<close> of Python rounds to \<open>n\<close> decimal digits, a tie going to the
  even neighbour.
\<close>

definition round_half_even :: "real \<Rightarrow> int" where
  "round_half_even x =
     (let f = \<lfloor>x\<rfloor>; d = x - of_int f
      in if d < 1 / 2 then f
         else if 1 / 2 < d then f + 1
         else if even f then f else f + 1)"

definition py_round :: "real \<Rightarrow> nat \<Rightarrow> real" where
  "py_round x n = of_int (round_half_even (x * 10 ^ n)) / 10 ^ n"



subsection \<open>The conversion engine\<close>

text \<open>
  \<^verbatim>\<open>
  def convert_units(value, from_unit, to_unit, unit_type):
      if unit_type == "Temperature":
          try:
              base_value = unit_conversions[unit_type][from_unit]["to_base"](value)
              result = unit_conversions[unit_type][to_unit]["from_base"](base_value)
              return round(result, 6)
          except KeyError:
              return None
      else:
          factors = unit_conversions[unit_type]
          if from_unit in factors and to_unit in factors:
              return value * factors[to_unit] / factors[from_unit]
      return None
  \<close>
  The result is \<open>Inl e\<close> when exception \<open>e\<close> leaves the function, \<open>Inr None\<close> when
  it returns \<^verbatim>\<open>None\<close> and \<open>Inr (Some r)\<close> when it returns the number \<open>r\<close>.
  In the first branch every \<^verbatim>\<open>KeyError\<close> is caught. In the second branch the
  lookup of \<^verbatim>\<open>unit_type\<close> stands outside any \<^verbatim>\<open>try\<close>, and the division raises
  when the divisor is zero. A table of lambdas in the second branch would make the
  product raise \<^verbatim>\<open>TypeError\<close>; the only such table is that of
  \<^verbatim>\<open>"Temperature"\<close>, which the first branch takes.
\<close>

definition convert_temperature :: "real \<Rightarrow> string \<Rightarrow> string \<Rightarrow> real option" where
  "convert_temperature v from_unit to_unit =
     (case map_of temperature_scales from_unit of
        None \<Rightarrow> None
      | Some (to_base, _) \<Rightarrow>
          (case map_of temperature_scales to_unit of
             None \<Rightarrow> None
           | Some (_, from_base) \<Rightarrow> Some (py_round (from_base (to_base v)) 6)))"

definition convert_linear ::
  "(string \<times> real) list \<Rightarrow> real \<Rightarrow> string \<Rightarrow> string \<Rightarrow> py_error + real option" where
  "convert_linear factors v from_unit to_unit =
     (case (map_of factors from_unit, map_of factors to_unit) of
        (Some f_from, Some f_to) \<Rightarrow>
          if f_from = 0 then Inl ZeroDivisionError else Inr (Some (v * f_to / f_from))
      | _ \<Rightarrow> Inr None)"

definition convert_units ::
  "real \<Rightarrow> string \<Rightarrow> string \<Rightarrow> string \<Rightarrow> py_error + real option" where
  "convert_units v from_unit to_unit unit_type =
     (if unit_type = ''Temperature'' then Inr (convert_temperature v from_unit to_unit)
      else
        (case map_of unit_conversions unit_type of
           None \<Rightarrow> Inl KeyError
         | Some (Factors factors) \<Rightarrow> convert_linear factors v from_unit to_unit
         | Some (Scales scales) \<Rightarrow>
             if map_of scales from_unit \<noteq> None \<and> map_of scales to_unit \<noteq> None
             then Inl TypeError else Inr None))"

text \<open>The linear categories of the registry, and the factor table of each.\<close>

definition linear_factors :: "string \<Rightarrow> (string \<times> real) list option" where
  "linear_factors unit_type =
     (case map_of unit_conversions unit_type of
        Some (Factors factors) \<Rightarrow> Some factors
      | _ \<Rightarrow> None)"


subsection \<open>Binary floating point\<close>

text \<open>
  A \<^verbatim>\<open>float\<close> of Python is a binary64 number of IEEE 754: a finite number, given
  here by its value, an infinity with its sign (\<open>True\<close> for the negative one), or
  not a number. The two zeros are not told apart. An operation on finite numbers
  returns the exact result rounded to the nearest number of 53 significant bits, a
  tie going to the even one; the exponent of the last bit is at least \<open>-1074\<close>, and a
  result that rounds to \<open>2 ^ 1024\<close> or more is an infinity. Python raises no exception
  when \<^verbatim>\<open>+\<close>, \<^verbatim>\<open>-\<close>, \<^verbatim>\<open>*\<close> or \<^verbatim>\<open>/\<close> overflows, and raises
  \<^verbatim>\<open>ZeroDivisionError\<close> when the divisor is zero.
\<close>

datatype double = Finite real | Infinity bool | NaN

definition exponent :: "real \<Rightarrow> int" where
  "exponent q = max \<lfloor>log 2 \<bar>q\<bar>\<rfloor> (- 1022)"

definition round_double :: "real \<Rightarrow> double" where
  "round_double q =
     (if q = 0 then Finite 0
      else
        (let ulp = 2 powr (of_int (exponent q) - 52);
             r = of_int (round_half_even (\<bar>q\<bar> / ulp)) * ulp
         in if 2 ^ 1024 \<le> r then Infinity (q < 0) else Finite (sgn q * r)))"

fun fmul :: "double \<Rightarrow> double \<Rightarrow> double" where
  "fmul (Finite a) (Finite b) = round_double (a * b)"
| "fmul (Finite a) (Infinity t) = (if a = 0 then NaN else Infinity (t \<noteq> (a < 0)))"
| "fmul (Infinity s) (Finite b) = (if b = 0 then NaN else Infinity (s \<noteq> (b < 0)))"
| "fmul (Infinity s) (Infinity t) = Infinity (s \<noteq> t)"
| "fmul NaN y = NaN"
| "fmul x NaN = NaN"

fun fadd :: "double \<Rightarrow> double \<Rightarrow> double" where
  "fadd (Finite a) (Finite b) = round_double (a + b)"
| "fadd (Finite a) (Infinity t) = Infinity t"
| "fadd (Infinity s) (Finite b) = Infinity s"
| "fadd (Infinity s) (Infinity t) = (if s = t then Infinity s else NaN)"
| "fadd NaN y = NaN"
| "fadd x NaN = NaN"

fun fneg :: "double \<Rightarrow> double" where
  "fneg (Finite a) = Finite (- a)"
| "fneg (Infinity s) = Infinity (\<not> s)"
| "fneg NaN = NaN"

definition fsub :: "double \<Rightarrow> double \<Rightarrow> double" where
  "fsub x y = fadd x (fneg y)"

fun py_truediv :: "double \<Rightarrow> double \<Rightarrow> py_error + double" where
  "py_truediv x (Finite b) =
     (if b = 0 then Inl ZeroDivisionError
      else Inr (case x of
                  Finite a \<Rightarrow> round_double (a / b)
                | Infinity s \<Rightarrow> Infinity (s \<noteq> (b < 0))
                | NaN \<Rightarrow> NaN))"
| "py_truediv x (Infinity t) =
     Inr (case x of Finite a \<Rightarrow> Finite 0 | Infinity s \<Rightarrow> NaN | NaN \<Rightarrow> NaN)"
| "py_truediv x NaN = Inr NaN"

text \<open>
  \<^verbatim>\<open>round(x, n)\<close> of a finite \<^verbatim>\<open>float\<close> is the double nearest to the decimal
  rounding of its value; an infinity and not-a-number are returned as they are.
\<close>

fun py_round_double :: "double \<Rightarrow> nat \<Rightarrow> double" where
  "py_round_double (Finite a) n = round_double (py_round a n)"
| "py_round_double (Infinity s) n = Infinity s"
| "py_round_double NaN n = NaN"


subsection \<open>The conversion engine on binary floating point\<close>

text \<open>
  \<^verbatim>\<open>convert_units\<close> once more, with the numbers of the registry rounded to doubles
  and the operations of the lambdas and of the quotient as Python performs them.
  \<^verbatim>\<open>(x - 32) * 5/9\<close> is \<^verbatim>\<open>((x - 32) * 5) / 9\<close> and \<^verbatim>\<open>x * 9/5 + 32\<close> is
  \<^verbatim>\<open>((x * 9) / 5) + 32\<close>; \<^verbatim>\<open>value * factors[to_unit] / factors[from_unit]\<close> is the
  product divided by the factor of the source unit.
\<close>

definition temperature_scales_double ::
  "(string \<times> (double \<Rightarrow> py_error + double) \<times> (double \<Rightarrow> py_error + double)) list" where
  "temperature_scales_double =
     [(''C'', (\<lambda>x. Inr x, \<lambda>x. Inr x)),
      (''F'', (\<lambda>x. py_truediv (fmul (fsub x (Finite 32)) (Finite 5)) (Finite 9),
               \<lambda>x. (case py_truediv (fmul x (Finite 9)) (Finite 5) of
                       Inl e \<Rightarrow> Inl e
                     | Inr y \<Rightarrow> Inr (fadd y (Finite 32))))),
      (''K'', (\<lambda>x. Inr (fsub x (round_double (27315 / 100))),
               \<lambda>x. Inr (fadd x (round_double (27315 / 100)))))]"

definition convert_temperature_double ::
  "double \<Rightarrow> string \<Rightarrow> string \<Rightarrow> py_error + double option" where
  "convert_temperature_double v from_unit to_unit =
     (case map_of temperature_scales_double from_unit of
        None \<Rightarrow> Inr None
      | Some (to_base, _) \<Rightarrow>
          (case to_base v of
             Inl e \<Rightarrow> Inl e
           | Inr base_value \<Rightarrow>
               (case map_of temperature_scales_double to_unit of
                  None \<Rightarrow> Inr None
                | Some (_, from_base) \<Rightarrow>
                    (case from_base base_value of
                       Inl e \<Rightarrow> Inl e
                     | Inr result \<Rightarrow> Inr (Some (py_round_double result 6))))))"

definition convert_linear_double ::
  "(string \<times> real) list \<Rightarrow> double \<Rightarrow> string \<Rightarrow> string \<Rightarrow> py_error + double option" where
  "convert_linear_double factors v from_unit to_unit =
     (case (map_of factors from_unit, map_of factors to_unit) of
        (Some f_from, Some f_to) \<Rightarrow>
          (case py_truediv (fmul v (round_double f_to)) (round_double f_from) of
             Inl e \<Rightarrow> Inl e
           | Inr result \<Rightarrow> Inr (Some result))
      | _ \<Rightarrow> Inr None)"

definition convert_units_double ::
  "double \<Rightarrow> string \<Rightarrow> string \<Rightarrow> string \<Rightarrow> py_error + double option" where
  "convert_units_double v from_unit to_unit unit_type =
     (if unit_type = ''Temperature'' then convert_temperature_double v from_unit to_unit
      else
        (case map_of unit_conversions unit_type of
           None \<Rightarrow> Inl KeyError
         | Some (Factors factors) \<Rightarrow> convert_linear_double factors v from_unit to_unit
         | Some (Scales scales) \<Rightarrow>
             if map_of scales from_unit \<noteq> None \<and> map_of scales to_unit \<noteq> None
             then Inl TypeError else Inr None))"


text \<open>
  The round trip of the specification, \<^verbatim>\<open>convert(convert(x, A, B), B, A)\<close>: the
  second call is made when the first one returns a number.
\<close>

definition round_trip ::
  "double \<Rightarrow> string \<Rightarrow> string \<Rightarrow> string \<Rightarrow> py_error + double option" where
  "round_trip x a b unit_type =
     (case convert_units_double x a b unit_type of
        Inl e \<Rightarrow> Inl e
      | Inr None \<Rightarrow> Inr None
      | Inr (Some y) \<Rightarrow> convert_units_double y b a unit_type)"

text \<open>A double \<open>z\<close> is within the relative error \<open>tol\<close> of the number \<open>x\<close>.\<close>

definition within_relative :: "real \<Rightarrow> double \<Rightarrow> real \<Rightarrow> bool" where
  "within_relative tol z x =
     (case z of Finite r \<Rightarrow> \<bar>r - x\<bar> \<le> tol * \<bar>x\<bar> | Infinity s \<Rightarrow> False | NaN \<Rightarrow> False)"


subsection \<open>The persisted files\<close>

text \<open>
  \<^verbatim>\<open>users.json\<close> and \<^verbatim>\<open>feedback.json\<close> are opened for reading and parsed with
  \<^verbatim>\<open>json.load\<close>. What this does depends on the file:
  \<^item> \<open>Missing\<close>: there is no file, and \<^verbatim>\<open>open\<close> raises \<^verbatim>\<open>FileNotFoundError\<close>;
  \<^item> \<open>Malformed\<close>: the file holds text that the parser rejects, and \<^verbatim>\<open>json.load\<close>
    raises \<^verbatim>\<open>json.JSONDecodeError\<close>;
  \<^item> \<open>NotUTF8\<close>: the file holds bytes that are not text in the encoding of
    \<^verbatim>\<open>open\<close>, and reading raises \<^verbatim>\<open>UnicodeDecodeError\<close>;
  \<^item> \<open>TooDeep\<close>: the file holds text nested deeper than the recursion limit, and
    \<^verbatim>\<open>json.load\<close> raises \<^verbatim>\<open>RecursionError\<close>;
  \<^item> \<open>Document d\<close>: the file holds the document \<open>d\<close>, which is returned.

  The documents are those that the program itself writes: an object from user name
  to \<^verbatim>\<open>{"password": ..., "role": ...}\<close>, and an array of feedback objects. Writing
  a file always succeeds.
\<close>

datatype 'a json_file = Missing | Malformed | NotUTF8 | TooDeep | Document 'a

definition json_load :: "'a json_file \<Rightarrow> py_error + 'a" where
  "json_load file =
     (case file of
        Missing \<Rightarrow> Inl FileNotFoundError
      | Malformed \<Rightarrow> Inl JSONDecodeError
      | NotUTF8 \<Rightarrow> Inl UnicodeDecodeError
      | TooDeep \<Rightarrow> Inl RecursionError
      | Document d \<Rightarrow> Inr d)"

record account =
  password :: string
  role :: string

text \<open>
  Of a feedback object the code reads \<^verbatim>\<open>rating\<close> and \<^verbatim>\<open>visible\<close> with
  \<^verbatim>\<open>get\<close> and a default, and tests \<^verbatim>\<open>'visible' not in f\<close>; these keys and
  \<^verbatim>\<open>timestamp\<close>, which it indexes, may be absent.
\<close>

record feedback =
  fb_id :: string
  username :: string
  feedback_text :: string
  rating :: "int option"
  polarity :: real
  subjectivity :: real
  timestamp :: "string option"
  visible :: "bool option"

record files =
  USER_DB :: "(string \<rightharpoonup> account) json_file"
  FEEDBACK_DB :: "feedback list json_file"


subsection \<open>Authentication functions\<close>

text \<open>
  \<^verbatim>\<open>
  def load_users():
      try:
          with open(USER_DB, "r") as f:
              return json.load(f)
      except (FileNotFoundError, json.JSONDecodeError):
          return {}

  def save_users(users):
      with open(USER_DB, "w") as f:
          json.dump(users, f, indent=2)
  \<close>
  The two exceptions named are caught; any other one leaves the function.
\<close>

definition load_users :: "files \<Rightarrow> py_error + (string \<rightharpoonup> account)" where
  "load_users fs =
     (case json_load (USER_DB fs) of
        Inr users \<Rightarrow> Inr users
      | Inl FileNotFoundError \<Rightarrow> Inr Map.empty
      | Inl JSONDecodeError \<Rightarrow> Inr Map.empty
      | Inl e \<Rightarrow> Inl e)"

definition save_users :: "(string \<rightharpoonup> account) \<Rightarrow> files \<Rightarrow> files" where
  "save_users users fs = fs\<lparr>USER_DB := Document users\<rparr>"

text \<open>
  \<^verbatim>\<open>hash_password\<close> is \<^verbatim>\<open>hashlib.sha256(password.encode()).hexdigest()\<close>. The
  digest belongs to the Python library; it is the parameter \<open>sha256\<close> of the
  functions that hash.
\<close>

definition hash_password :: "(string \<Rightarrow> string) \<Rightarrow> string \<Rightarrow> string" where
  "hash_password sha256 pw = sha256 pw"

text \<open>
  \<^verbatim>\<open>
  def register_user(username, password):
      users = load_users()
      if username in users:
          return False
      users[username] = {"password": hash_password(password), "role": "user"}
      save_users(users)
      return True
  \<close>
  The result is the returned flag and the files afterwards.
\<close>

definition register_user ::
  "(string \<Rightarrow> string) \<Rightarrow> string \<Rightarrow> string \<Rightarrow> files \<Rightarrow> py_error + bool \<times> files" where
  "register_user sha256 uname pw fs =
     (case load_users fs of
        Inl e \<Rightarrow> Inl e
      | Inr users \<Rightarrow>
          if users uname \<noteq> None then Inr (False, fs)
          else Inr (True,
                 save_users
                   (users(uname \<mapsto> \<lparr>password = hash_password sha256 pw, role = ''user''\<rparr>))
                   fs))"

text \<open>
  \<^verbatim>\<open>
  def authenticate_user(username, password):
      users = load_users()
      user = users.get(username)
      if user and user["password"] == hash_password(password):
          return user
      return None
  \<close>
  An account is a dict of two keys, which Python counts as true.
\<close>

definition authenticate_user ::
  "(string \<Rightarrow> string) \<Rightarrow> string \<Rightarrow> string \<Rightarrow> files \<Rightarrow> py_error + account option" where
  "authenticate_user sha256 uname pw fs =
     (case load_users fs of
        Inl e \<Rightarrow> Inl e
      | Inr users \<Rightarrow>
          Inr (case users uname of
                 None \<Rightarrow> None
               | Some user \<Rightarrow>
                   if password user = hash_password sha256 pw then Some user else None))"

text \<open>
  \<^verbatim>\<open>len\<close> of a \<^verbatim>\<open>str\<close> counts its characters. In UTF-8 a character is one byte
  that is not of the form \<open>10xxxxxx\<close>, followed by bytes that are.
\<close>

definition py_len :: "string \<Rightarrow> nat" where
  "py_len s = length (filter (\<lambda>c. \<not> (128 \<le> (of_char c :: nat) \<and> (of_char c :: nat) < 192)) s)"

text \<open>
  The REGISTER button of \<^verbatim>\<open>login_section\<close>:
  \<^verbatim>\<open>
  if len(password) >= 8:
      if register_user(username, password):
          st.success("Registration Successful!")
      else:
          st.error("Username Already Exists")
  else:
      st.error("Password Must Be 8+ Characters")
  \<close>
  The result is the message shown and the files afterwards.
\<close>

definition login_section_register ::
  "(string \<Rightarrow> string) \<Rightarrow> string \<Rightarrow> string \<Rightarrow> files \<Rightarrow> py_error + string \<times> files" where
  "login_section_register sha256 uname pw fs =
     (if 8 \<le> py_len pw then
        (case register_user sha256 uname pw fs of
           Inl e \<Rightarrow> Inl e
         | Inr (True, fs') \<Rightarrow> Inr (''Registration Successful!'', fs')
         | Inr (False, fs') \<Rightarrow> Inr (''Username Already Exists'', fs'))
      else Inr (''Password Must Be 8+ Characters'', fs))"


subsection \<open>The feedback system\<close>

text \<open>
  \<^verbatim>\<open>
  def load_feedback():
      try:
          with open(FEEDBACK_DB, "r") as f:
              feedbacks = json.load(f)
              for f in feedbacks:
                  if 'visible' not in f:
                      f['visible'] = True
              return feedbacks
      except (FileNotFoundError, json.JSONDecodeError):
          return []
  \<close>
\<close>

definition fill_visible :: "feedback \<Rightarrow> feedback" where
  "fill_visible f = (if visible f = None then f\<lparr>visible := Some True\<rparr> else f)"

definition load_feedback :: "files \<Rightarrow> py_error + feedback list" where
  "load_feedback fs =
     (case json_load (FEEDBACK_DB fs) of
        Inr feedbacks \<Rightarrow> Inr (map fill_visible feedbacks)
      | Inl FileNotFoundError \<Rightarrow> Inr []
      | Inl JSONDecodeError \<Rightarrow> Inr []
      | Inl e \<Rightarrow> Inl e)"

text \<open>
  \<^verbatim>\<open>xs.sort(key=k, reverse=True)\<close>: the sort of Python is stable, and with
  \<^verbatim>\<open>reverse=True\<close> it reverses the list, sorts it in ascending order and reverses
  the outcome, so that elements of equal key keep their order. The stable ascending
  sort is \<open>sort_key\<close>.
\<close>

definition sort_reverse :: "('a \<Rightarrow> 'k::linorder) \<Rightarrow> 'a list \<Rightarrow> 'a list" where
  "sort_reverse k xs = rev (sort_key k (rev xs))"

text \<open>
  The list that \<^verbatim>\<open>review_section\<close> renders, for the choices of its two select
  boxes:
  \<^verbatim>\<open>
  feedbacks = load_feedback()
  if not feedbacks:
      st.info("No Reviews Available")
      return
  ...
  filtered = [f for f in feedbacks if
              f.get('rating', 0) >= min_rating and
              f.get('visible', True)]
  if sort_order == "Highest Rating":
      filtered.sort(key=lambda x: x['rating'], reverse=True)
  else:
      filtered.sort(key=lambda x: x['timestamp'], reverse=True)
  \<close>
  The sort computes the key of every element, so it raises \<^verbatim>\<open>KeyError\<close> when an
  element of \<^verbatim>\<open>filtered\<close> lacks the key.
\<close>

definition get_rating :: "feedback \<Rightarrow> int" where
  "get_rating f = (case rating f of None \<Rightarrow> 0 | Some r \<Rightarrow> r)"

definition get_visible :: "feedback \<Rightarrow> bool" where
  "get_visible f = (case visible f of None \<Rightarrow> True | Some b \<Rightarrow> b)"

definition review_filter :: "int \<Rightarrow> feedback list \<Rightarrow> feedback list" where
  "review_filter min_rating feedbacks =
     filter (\<lambda>f. min_rating \<le> get_rating f \<and> get_visible f) feedbacks"

definition review_section :: "files \<Rightarrow> int \<Rightarrow> string \<Rightarrow> py_error + feedback list" where
  "review_section fs min_rating sort_order =
     (case load_feedback fs of
        Inl e \<Rightarrow> Inl e
      | Inr feedbacks \<Rightarrow>
          if feedbacks = [] then Inr []
          else
            (let filtered = review_filter min_rating feedbacks
             in if sort_order = ''Highest Rating'' then
                  (if list_ex (\<lambda>x. rating x = None) filtered then Inl KeyError
                   else Inr (sort_reverse (\<lambda>x. the (rating x)) filtered))
                else
                  (if list_ex (\<lambda>x. timestamp x = None) filtered then Inl KeyError
                   else Inr (sort_reverse (\<lambda>x. the (timestamp x)) filtered))))"


subsection \<open>The words of the specification, and sample data\<close>

text \<open>
  The records that the specification lists in the reviews: those that are visible
  and whose rating is at least the minimum.
\<close>

definition spec_listed :: "int \<Rightarrow> feedback \<Rightarrow> bool" where
  "spec_listed min_rating f =
     (visible f = Some True \<and> (case rating f of None \<Rightarrow> False | Some r \<Rightarrow> min_rating \<le> r))"

text \<open>
  Sample files for the concrete instances below. In them \<open>rev\<close> stands for the
  digest, which is a parameter.
\<close>

definition alice_files :: files where
  "alice_files =
     \<lparr>USER_DB = Document [''alice'' \<mapsto> \<lparr>password = rev ''longpassword'', role = ''user''\<rparr>],
      FEEDBACK_DB = Malformed\<rparr>"

definition review :: "string \<Rightarrow> int \<Rightarrow> bool option \<Rightarrow> feedback" where
  "review who stars vis =
     \<lparr>fb_id = ''00000000'', username = who, feedback_text = ''text'', rating = Some stars,
      polarity = 0, subjectivity = 0, timestamp = Some ''2025-01-01T00:00:00'', visible = vis\<rparr>"

definition review_files :: files where
  "review_files =
     \<lparr>USER_DB = Missing,
      FEEDBACK_DB = Document
        [review ''a'' 3 (Some True), review ''b'' 5 (Some True), review ''c'' 3 None,
         review ''d'' 2 (Some True), review ''e'' 5 (Some False), review ''f'' 5 (Some True)]\<rparr>"

text \<open>A password of six characters in fifteen bytes.\<close>

definition six_characters :: string where
  "six_characters = length_unit3 @ length_unit3 @ length_unit3"


section \<open>Properties of the conversion engine\<close>

subsection \<open>The registry\<close>

lemmas factor_defs = energy_factors_def length_factors_def time_factors_def
  frequency_factors_def mass_factors_def speed_factors_def length_unit3_def

lemmas registry_defs = unit_conversions_def factor_defs

lemma linear_factors_cases:
  "linear_factors t = Some fs \<Longrightarrow>
     (t = ''Energy'' \<and> fs = energy_factors) \<or> (t = ''Length'' \<and> fs = length_factors) \<or>
     (t = ''Time'' \<and> fs = time_factors) \<or> (t = ''Frequency'' \<and> fs = frequency_factors) \<or>
     (t = ''Mass'' \<and> fs = mass_factors) \<or> (t = ''Speed'' \<and> fs = speed_factors)"
  by (auto simp: linear_factors_def unit_conversions_def
      split: if_splits unit_table.splits option.splits)

lemma linear_not_temperature: "linear_factors t = Some fs \<Longrightarrow> t \<noteq> ''Temperature''"
  by (auto dest: linear_factors_cases)

text \<open>The branch of \<open>convert_units\<close> that raises \<open>TypeError\<close> is never taken.\<close>

lemma scales_only_temperature:
  "map_of unit_conversions t = Some (Scales s) \<Longrightarrow> t = ''Temperature''"
  by (auto simp: unit_conversions_def split: if_splits)

text \<open>No factor of the registry is zero, so the division never raises.\<close>

lemma factor_nonzero:
  "linear_factors t = Some fs \<Longrightarrow> map_of fs u = Some f \<Longrightarrow> f \<noteq> 0"
  by (auto dest!: linear_factors_cases simp: factor_defs split: if_splits)

lemma convert_units_linear_eq:
  "linear_factors t = Some fs \<Longrightarrow> convert_units v a b t = convert_linear fs v a b"
  by (frule linear_not_temperature)
     (auto simp: convert_units_def linear_factors_def split: option.splits unit_table.splits)

lemma convert_linear_value:
  assumes "linear_factors t = Some fs" "map_of fs a = Some fa" "map_of fs b = Some fb"
  shows "convert_units v a b t = Inr (Some (v * fb / fa))"
  using assms factor_nonzero[OF assms(1,2)]
  by (simp add: convert_units_linear_eq convert_linear_def)

text \<open>A unit that the category does not have makes the function return \<^verbatim>\<open>None\<close>.\<close>

lemma convert_units_unknown_temperature_unit:
  "map_of temperature_scales a = None \<or> map_of temperature_scales b = None \<Longrightarrow>
     convert_units v a b ''Temperature'' = Inr None"
  by (auto simp: convert_units_def convert_temperature_def split: option.splits)

lemma convert_units_unknown_linear_unit:
  "linear_factors t = Some fs \<Longrightarrow> map_of fs a = None \<or> map_of fs b = None \<Longrightarrow>
     convert_units v a b t = Inr None"
  by (auto simp: convert_units_linear_eq convert_linear_def split: option.splits)

text \<open>
  In exact arithmetic a linear conversion followed by the opposite one gives the
  value back. The error of the round trip on doubles is the matter of
  \<open>convert_units_double\<close> below.
\<close>

lemma convert_units_round_trip_exact:
  assumes "linear_factors t = Some fs" "map_of fs a = Some fa" "map_of fs b = Some fb"
  shows "\<exists>y. convert_units x a b t = Inr (Some y) \<and> convert_units y b a t = Inr (Some x)"
  using assms factor_nonzero[OF assms(1,2)] factor_nonzero[OF assms(1,3)]
  by (simp add: convert_linear_value)


subsection \<open>Rounding\<close>

lemma round_half_even_bounds: "\<bar>of_int (round_half_even x) - x\<bar> \<le> 1 / 2"
  unfolding round_half_even_def Let_def by (auto simp: abs_le_iff)





subsection \<open>The claims about conversion\<close>

text \<open>
  Claim C1 says that converting 100 from \<^verbatim>\<open>"J"\<close> to \<^verbatim>\<open>"eV"\<close> in \<^verbatim>\<open>"Energy"\<close>
  gives about \<open>6.2415e20\<close>. The function returns \<open>100 * 1.60218e-19 / 1\<close>, which is
  \<open>1.60218e-17\<close>, and that is not within one percent of \<open>6.2415e20\<close>.
\<close>

theorem convert_units_100_J_eV:
  "convert_units 100 ''J'' ''eV'' ''Energy'' = Inr (Some (160218 / 10 ^ 22))
   \<and> \<not> \<bar>160218 / 10 ^ 22 - 62415 * 10 ^ 16\<bar> \<le> (62415 * 10 ^ 16 / 100 :: real)"
  by (simp add: convert_units_def convert_linear_def registry_defs)

text \<open>
  Claim C2 says that an unknown category or unit gives a failure value and that no
  exception leaves the function. For a category that the registry does not have,
  \<^verbatim>\<open>KeyError\<close> leaves the function.
\<close>

theorem convert_units_unknown_category:
  "convert_units 1 ''J'' ''eV'' ''Pressure'' = Inl KeyError"
  by (simp add: convert_units_def registry_defs)




text \<open>
  Claim C4: in a linear category, for two units of the category, the function
  returns the value times the factor of the target unit, divided by the factor of
  the source unit, the factors being the numbers of the registry.
\<close>

theorem convert_units_linear_formula:
  assumes "linear_factors unit_type = Some factors"
    and "map_of factors from_unit = Some f_from"
    and "map_of factors to_unit = Some f_to"
  shows "convert_units v from_unit to_unit unit_type = Inr (Some (v * f_to / f_from))"
  using assms by (rule convert_linear_value)

theorem convert_units_linear_formula_witness:
  "linear_factors ''Energy'' = Some energy_factors
   \<and> map_of energy_factors ''Ha'' = Some (435974 / 10 ^ 23)
   \<and> map_of energy_factors ''eV'' = Some (160218 / 10 ^ 24)
   \<and> convert_units 3 ''Ha'' ''eV'' ''Energy''
       = Inr (Some (3 * (160218 / 10 ^ 24) / (435974 / 10 ^ 23)))"
proof -
  have 1: "linear_factors ''Energy'' = Some energy_factors"
    by (simp add: linear_factors_def unit_conversions_def)
  have 2: "map_of energy_factors ''Ha'' = Some (435974 / 10 ^ 23)"
    by (simp add: energy_factors_def)
  have 3: "map_of energy_factors ''eV'' = Some (160218 / 10 ^ 24)"
    by (simp add: energy_factors_def)
  show ?thesis
    using 1 2 3 convert_units_linear_formula[OF 1 2 3, of 3] by simp
qed


section \<open>Properties of the conversion engine on binary floating point\<close>

subsection \<open>Rounding to a double\<close>

text \<open>
  A number whose magnitude lies between the smallest normal double and \<open>2 ^ 1023\<close> is
  rounded with a relative error of at most \<open>2 ^ -53\<close>; a number of magnitude
  \<open>2 ^ 1024\<close> or more is rounded to an infinity.
\<close>

lemma powr_floor_log_le:
  assumes "q \<noteq> 0"
  shows "2 powr of_int \<lfloor>log 2 \<bar>q\<bar>\<rfloor> \<le> \<bar>q\<bar>"
proof -
  have "of_int \<lfloor>log 2 \<bar>q\<bar>\<rfloor> \<le> log 2 \<bar>q\<bar>" by simp
  then have "2 powr of_int \<lfloor>log 2 \<bar>q\<bar>\<rfloor> \<le> 2 powr log 2 \<bar>q\<bar>"
    by (simp only: powr_le_cancel_iff) 
  then show ?thesis using assms by simp
qed

lemma normal_pos:
  assumes "1 / 2 ^ 1022 \<le> \<bar>q::real\<bar>"
  shows "0 < \<bar>q\<bar>"
proof -
  have "(0::real) < 1 / 2 ^ 1022" by simp
  then show ?thesis using assms by (rule less_le_trans)
qed

lemma log_min_normal: "log 2 (1 / 2 ^ 1022) = - 1022"
proof -
  have "log 2 (1 / 2 ^ 1022) = - log 2 (2 ^ 1022)"
    by (rule log_recip)
  also have "log 2 ((2::real) ^ 1022) = of_nat 1022"
    by (rule log_pow_cancel) simp_all
  finally show ?thesis by simp
qed

lemma exponent_normal:
  assumes "1 / 2 ^ 1022 \<le> \<bar>q\<bar>"
  shows "exponent q = \<lfloor>log 2 \<bar>q\<bar>\<rfloor>"
proof -
  have "log 2 (1 / 2 ^ 1022) \<le> log 2 \<bar>q\<bar>"
    using assms by (intro log_mono) simp_all
  then have "- 1022 \<le> log 2 \<bar>q\<bar>" by (simp only: log_min_normal)
  then have "- 1022 \<le> \<lfloor>log 2 \<bar>q\<bar>\<rfloor>" by (simp add: le_floor_iff)
  then show ?thesis by (simp add: exponent_def)
qed


lemma round_double_normal:
  assumes lo: "1 / 2 ^ 1022 \<le> \<bar>q\<bar>" and hi: "\<bar>q\<bar> \<le> 2 ^ 1023"
  obtains d where "\<bar>d\<bar> \<le> 1 / 2 ^ 53" "round_double q = Finite (q * (1 + d))"
proof -
  have pos: "0 < \<bar>q\<bar>" using lo by (rule normal_pos)
  then have q0: "q \<noteq> 0" by simp
  define e where "e = \<lfloor>log 2 \<bar>q\<bar>\<rfloor>"
  define ulp :: real where "ulp = 2 powr (of_int e - 52)"
  define m :: real where "m = of_int (round_half_even (\<bar>q\<bar> / ulp))"
  define r :: real where "r = m * ulp"
  have ex: "exponent q = e" using exponent_normal[OF lo] by (simp add: e_def)
  have ulp_pos: "0 < ulp" by (simp add: ulp_def)
  have ulp_eq: "ulp = 2 powr of_int e / 2 ^ 52"
    by (simp add: ulp_def powr_diff)
  have "2 powr of_int e \<le> \<bar>q\<bar>" unfolding e_def by (rule powr_floor_log_le[OF q0])
  then have ulp_le: "ulp \<le> \<bar>q\<bar> / 2 ^ 52"
    unfolding ulp_eq by (rule divide_right_mono) simp
  have "\<bar>m - \<bar>q\<bar> / ulp\<bar> \<le> 1 / 2"
    unfolding m_def by (rule round_half_even_bounds)
  then have "\<bar>m - \<bar>q\<bar> / ulp\<bar> * ulp \<le> 1 / 2 * ulp"
    using ulp_pos by (simp only: mult_le_cancel_right_pos)
  moreover have "\<bar>m - \<bar>q\<bar> / ulp\<bar> * ulp = \<bar>r - \<bar>q\<bar>\<bar>"
  proof -
    have "\<bar>m - \<bar>q\<bar> / ulp\<bar> * ulp = \<bar>(m - \<bar>q\<bar> / ulp) * ulp\<bar>"
      using ulp_pos by (simp add: abs_mult)
    also have "(m - \<bar>q\<bar> / ulp) * ulp = r - \<bar>q\<bar>"
      using ulp_pos by (simp add: r_def algebra_simps)
    finally show ?thesis .
  qed
  ultimately have half: "\<bar>r - \<bar>q\<bar>\<bar> \<le> ulp / 2" by simp
  have "ulp / 2 \<le> (\<bar>q\<bar> / 2 ^ 52) / 2" using ulp_le by (rule divide_right_mono) simp
  also have "\<dots> = \<bar>q\<bar> / 2 ^ 53" by simp
  finally have err: "\<bar>r - \<bar>q\<bar>\<bar> \<le> \<bar>q\<bar> / 2 ^ 53" using half by simp
  have "r - \<bar>q\<bar> \<le> \<bar>r - \<bar>q\<bar>\<bar>" by (rule abs_ge_self)
  then have "r - \<bar>q\<bar> \<le> \<bar>q\<bar> / 2 ^ 53" using err by (rule order_trans)
  moreover have "\<bar>q\<bar> / 2 ^ 53 \<le> \<bar>q\<bar>" using pos by (simp add: field_simps)
  ultimately have "r \<le> 2 * \<bar>q\<bar>" by simp
  moreover have "r \<noteq> 2 * \<bar>q\<bar>"
  proof
    assume "r = 2 * \<bar>q\<bar>"
    then have "\<bar>r - \<bar>q\<bar>\<bar> = \<bar>q\<bar>" by simp
    with err have "\<bar>q\<bar> \<le> \<bar>q\<bar> / 2 ^ 53" by simp
    then show False using pos by (simp add: field_simps)
  qed
  ultimately have "r < 2 * \<bar>q\<bar>" by simp
  also have "2 * \<bar>q\<bar> \<le> 2 * 2 ^ 1023" using hi by (simp only: mult_left_mono zero_le_numeral)
  also have "2 * 2 ^ 1023 = (2 ^ 1024 :: real)" by simp
  finally have no_overflow: "\<not> 2 ^ 1024 \<le> r" by simp
  have rd: "round_double q = Finite (sgn q * r)"
    using q0 no_overflow by (simp add: round_double_def Let_def ex ulp_def r_def m_def)
  define d where "d = (r - \<bar>q\<bar>) / \<bar>q\<bar>"
  have "\<bar>d\<bar> = \<bar>r - \<bar>q\<bar>\<bar> / \<bar>q\<bar>" by (simp add: d_def)
  also have "\<dots> \<le> (\<bar>q\<bar> / 2 ^ 53) / \<bar>q\<bar>" using err by (rule divide_right_mono) simp
  also have "\<dots> = 1 / 2 ^ 53" using pos by simp
  finally have d_le: "\<bar>d\<bar> \<le> 1 / 2 ^ 53" .
  have "\<bar>q\<bar> * (1 + d) = r" using pos by (simp add: d_def field_simps)
  then have "sgn q * r = (sgn q * \<bar>q\<bar>) * (1 + d)" by (simp only: mult.assoc)
  also have "sgn q * \<bar>q\<bar> = q" by (simp add: sgn_mult_abs)
  finally have "round_double q = Finite (q * (1 + d))" using rd by simp
  with d_le show ?thesis by (rule that)
qed


lemma round_double_overflow:
  assumes "2 ^ 1024 \<le> \<bar>q\<bar>"
  shows "round_double q = Infinity (q < 0)"
proof -
  have big: "(1::real) / 2 ^ 1022 \<le> 2 ^ 1024" by simp
  have lo: "1 / 2 ^ 1022 \<le> \<bar>q\<bar>" using big assms by (rule order_trans)
  have pos: "0 < \<bar>q\<bar>" using lo by (rule normal_pos)
  then have q0: "q \<noteq> 0" by simp
  define e where "e = \<lfloor>log 2 \<bar>q\<bar>\<rfloor>"
  define ulp :: real where "ulp = 2 powr (of_int e - 52)"
  define k where "k = round_half_even (\<bar>q\<bar> / ulp)"
  have ex: "exponent q = e" using exponent_normal[OF lo] by (simp add: e_def)
  have ulp_pos: "0 < ulp" by (simp add: ulp_def)
  have ulp_eq: "ulp = 2 powr of_int e / 2 ^ 52"
    by (simp add: ulp_def powr_diff)
  have "log 2 (2 ^ 1024) \<le> log 2 \<bar>q\<bar>"
    using assms by (intro log_mono) simp_all
  moreover have "log 2 ((2::real) ^ 1024) = of_nat 1024"
    by (rule log_pow_cancel) simp_all
  ultimately have "1024 \<le> log 2 \<bar>q\<bar>" by simp
  then have e_big: "1024 \<le> e" by (simp add: e_def le_floor_iff)
  have "2 powr of_int e \<le> \<bar>q\<bar>" unfolding e_def by (rule powr_floor_log_le[OF q0])
  then have "2 powr of_int e / ulp \<le> \<bar>q\<bar> / ulp"
    using ulp_pos by (simp only: divide_right_mono less_imp_le)
  moreover have "2 powr of_int e / ulp = 2 ^ 52"
    by (simp add: ulp_eq)
  ultimately have quot: "2 ^ 52 \<le> \<bar>q\<bar> / ulp" by simp
  have "\<bar>of_int k - \<bar>q\<bar> / ulp\<bar> \<le> 1 / 2"
    unfolding k_def by (rule round_half_even_bounds)
  then have "\<bar>q\<bar> / ulp - of_int k \<le> 1 / 2"
    by (rule order_trans[OF abs_ge_minus_self[of "of_int k - \<bar>q\<bar> / ulp", simplified]])
  then have "\<bar>q\<bar> / ulp - 1 / 2 \<le> of_int k" by linarith
  with quot have "(2 ^ 52 - 1 :: real) < of_int k" by simp
  then have "(2 ^ 52 - 1 :: int) < k" by (simp add: of_int_less_iff [symmetric] del: of_int_less_iff)
  then have "2 ^ 52 \<le> k" by simp
  then have "(2 ^ 52 :: real) \<le> of_int k" by (simp add: of_int_le_iff [symmetric] del: of_int_le_iff)
  then have "2 ^ 52 * ulp \<le> of_int k * ulp"
    using ulp_pos by (simp only: mult_le_cancel_right_pos)
  moreover have "2 ^ 52 * ulp = 2 powr of_int e" by (simp add: ulp_eq)
  moreover have "2 powr 1024 \<le> (2::real) powr of_int e"
    by (rule powr_mono) (use e_big in simp_all)
  moreover have "(2::real) powr 1024 = 2 ^ 1024" by simp
  ultimately have "2 ^ 1024 \<le> of_int k * ulp" by simp
  then show ?thesis
    using q0 by (simp add: round_double_def Let_def ex ulp_def k_def)
qed

lemma round_double_1: "round_double 1 = Finite 1"
  by (simp add: round_double_def exponent_def round_half_even_def Let_def powr_neg_numeral)

lemma exponent_10_12: "exponent (10 ^ 12) = 39"
proof -
  have "\<lfloor>log 2 (10 ^ 12)\<rfloor> = 39"
    by (subst floor_log_eq_powr_iff) simp_all
  then show ?thesis by (simp add: exponent_def)
qed

lemma round_double_10_12: "round_double (10 ^ 12) = Finite (10 ^ 12)"
proof -
  have "exponent 1000000000000 = 39" using exponent_10_12 by simp
  then show ?thesis
    by (simp add: round_double_def round_half_even_def Let_def powr_neg_numeral)
qed


subsection \<open>Four roundings in a row\<close>

lemma abs_mult_bounds:
  fixes u v :: real
  assumes "l1 \<le> \<bar>u\<bar>" "\<bar>u\<bar> \<le> h1" "l2 \<le> \<bar>v\<bar>" "\<bar>v\<bar> \<le> h2" "0 \<le> l1" "0 \<le> l2"
  shows "l1 * l2 \<le> \<bar>u * v\<bar>" "\<bar>u * v\<bar> \<le> h1 * h2"
  using assms by (simp_all add: abs_mult mult_mono)

lemma abs_divide_bounds:
  fixes u v :: real
  assumes "l1 \<le> \<bar>u\<bar>" "\<bar>u\<bar> \<le> h1" "l2 \<le> \<bar>v\<bar>" "\<bar>v\<bar> \<le> h2" "0 \<le> l1" "0 < l2"
  shows "l1 / h2 \<le> \<bar>u / v\<bar>" "\<bar>u / v\<bar> \<le> h1 / l2"
proof -
  have "0 < \<bar>v\<bar>" using assms(3,6) by linarith
  then show "l1 / h2 \<le> \<bar>u / v\<bar>"
    unfolding abs_divide using assms by (intro frac_le) simp_all
  show "\<bar>u / v\<bar> \<le> h1 / l2"
    unfolding abs_divide using assms by (intro frac_le) simp_all
qed

lemma one_plus_bounds:
  fixes d :: real
  assumes "\<bar>d\<bar> \<le> 1 / 2 ^ 53"
  shows "1 / 2 \<le> \<bar>1 + d\<bar>" "\<bar>1 + d\<bar> \<le> 2"
proof -
  have "(1::real) / 2 ^ 53 \<le> 1 / 2" by simp
  with assms have "\<bar>d\<bar> \<le> 1 / 2" by (rule order_trans)
  then show "1 / 2 \<le> \<bar>1 + d\<bar>" "\<bar>1 + d\<bar> \<le> 2" by linarith+
qed

lemma product_error:
  fixes c d :: real
  assumes "\<bar>c - 1\<bar> \<le> e" "\<bar>d\<bar> \<le> u" 
  shows "\<bar>c * (1 + d) - 1\<bar> \<le> e + u + e * u"
proof -
  have eq: "c * (1 + d) - 1 = (c - 1) + d + (c - 1) * d" by (simp add: algebra_simps)
  have "\<bar>(c - 1) + d + (c - 1) * d\<bar> \<le> \<bar>c - 1\<bar> + \<bar>d\<bar> + \<bar>(c - 1) * d\<bar>"
    by (simp add: abs_triangle_ineq order_trans[OF abs_triangle_ineq])
  also have "\<bar>(c - 1) * d\<bar> \<le> e * u"
    unfolding abs_mult using assms by (intro mult_mono) simp_all
  finally have "\<bar>c * (1 + d) - 1\<bar> \<le> \<bar>c - 1\<bar> + \<bar>d\<bar> + e * u" by (simp add: eq)
  then show ?thesis using assms by linarith
qed


lemma round_step:
  assumes "l \<le> \<bar>q\<bar>" "\<bar>q\<bar> \<le> h" "1 / 2 ^ 1022 \<le> l" "h \<le> 2 ^ 1023"
  obtains d where "\<bar>d\<bar> \<le> 1 / 2 ^ 53" "round_double q = Finite (q * (1 + d))"
    "l * (1 / 2) \<le> \<bar>q * (1 + d)\<bar>" "\<bar>q * (1 + d)\<bar> \<le> h * 2"
proof -
  have lo: "1 / 2 ^ 1022 \<le> \<bar>q\<bar>" using assms(3,1) by (rule order_trans)
  have hi: "\<bar>q\<bar> \<le> 2 ^ 1023" using assms(2,4) by (rule order_trans)
  have "(0::real) \<le> 1 / 2 ^ 1022" by simp
  then have l0: "0 \<le> l" using assms(3) by (rule order_trans)
  from lo hi obtain d where d: "\<bar>d\<bar> \<le> 1 / 2 ^ 53" "round_double q = Finite (q * (1 + d))"
    by (rule round_double_normal)
  note c = one_plus_bounds[OF d(1)]
  have "l * (1 / 2) \<le> \<bar>q * (1 + d)\<bar>" "\<bar>q * (1 + d)\<bar> \<le> h * 2"
    using abs_mult_bounds[OF assms(1,2) c l0] by simp_all
  with d show ?thesis by (rule that)
qed

lemma four_roundings:
  fixes d1 d2 d3 d4 :: real
  assumes "\<bar>d1\<bar> \<le> 1 / 2 ^ 53" "\<bar>d2\<bar> \<le> 1 / 2 ^ 53" "\<bar>d3\<bar> \<le> 1 / 2 ^ 53" "\<bar>d4\<bar> \<le> 1 / 2 ^ 53"
  shows "\<bar>(1 + d1) * (1 + d2) * (1 + d3) * (1 + d4) - 1\<bar> \<le> 1 / 10 ^ 6"
proof -
  define u :: real where "u = 1 / 2 ^ 53"
  have u: "\<bar>d1\<bar> \<le> u" "\<bar>d2\<bar> \<le> u" "\<bar>d3\<bar> \<le> u" "\<bar>d4\<bar> \<le> u"
    using assms by (simp_all add: u_def)
  have "\<bar>(1 + d1) - 1\<bar> \<le> u" using u(1) by simp
  from product_error[OF this u(2)]
  have "\<bar>(1 + d1) * (1 + d2) - 1\<bar> \<le> u + u + u * u" .
  from product_error[OF this u(3)]
  have "\<bar>(1 + d1) * (1 + d2) * (1 + d3) - 1\<bar> \<le> u + u + u * u + u + (u + u + u * u) * u" .
  from product_error[OF this u(4)]
  have "\<bar>(1 + d1) * (1 + d2) * (1 + d3) * (1 + d4) - 1\<bar>
        \<le> u + u + u * u + u + (u + u + u * u) * u + u
            + (u + u + u * u + u + (u + u + u * u) * u) * u" .
  also have "\<dots> \<le> 1 / 10 ^ 6" by (simp add: u_def)
  finally show ?thesis .
qed


lemma round_trip_chain:
  fixes x a b lx hx lf hf :: real
  assumes x: "lx \<le> \<bar>x\<bar>" "\<bar>x\<bar> \<le> hx"
    and a: "lf \<le> a" "a \<le> hf"
    and b: "lf \<le> b" "b \<le> hf"
    and pos: "0 < lf" "0 \<le> lx"
    and low: "1 / 2 ^ 1022 \<le> lx * lf" "1 / 2 ^ 1022 \<le> lx * lf * (1 / 2) / hf"
      "1 / 2 ^ 1022 \<le> lx * lf * (1 / 2) * (1 / 2)" "1 / 2 ^ 1022 \<le> lx * (1 / 2 * (1 / 2) * (1 / 2))"
    and high: "hx * hf \<le> 2 ^ 1023" "hx * hf * 2 / lf \<le> 2 ^ 1023"
      "hx * hf * 2 * 2 \<le> 2 ^ 1023" "hx * (2 * 2 * 2) \<le> 2 ^ 1023"
  shows "\<exists>y z. py_truediv (fmul (Finite x) (Finite b)) (Finite a) = Inr (Finite y)
            \<and> py_truediv (fmul (Finite y) (Finite a)) (Finite b) = Inr (Finite z)
            \<and> \<bar>z - x\<bar> \<le> \<bar>x\<bar> / 10 ^ 6"
proof -
  have a_pos: "0 < a" using pos(1) a(1) by (rule less_le_trans)
  have b_pos: "0 < b" using pos(1) b(1) by (rule less_le_trans)
  have lf0: "0 \<le> lf" using pos(1) by (rule less_imp_le)
  have a': "lf \<le> \<bar>a\<bar>" "\<bar>a\<bar> \<le> hf" using a a_pos by simp_all
  have b': "lf \<le> \<bar>b\<bar>" "\<bar>b\<bar> \<le> hf" using b b_pos by simp_all
  have half: "(0::real) \<le> 1 / 2" by simp
  \<comment> \<open>the product\<close>
  note q1 = abs_mult_bounds[OF x b' pos(2) lf0]
  obtain d1 where d1: "\<bar>d1\<bar> \<le> 1 / 2 ^ 53"
      "round_double (x * b) = Finite (x * b * (1 + d1))"
      "lx * lf * (1 / 2) \<le> \<bar>x * b * (1 + d1)\<bar>"
      "\<bar>x * b * (1 + d1)\<bar> \<le> hx * hf * 2"
    by (rule round_step[OF q1 low(1) high(1)])
  define p1 where "p1 = x * b * (1 + d1)"
  have p1: "lx * lf * (1 / 2) \<le> \<bar>p1\<bar>" "\<bar>p1\<bar> \<le> hx * hf * 2"
    using d1(3,4) by (simp_all only: p1_def)
  have l1: "0 \<le> lx * lf * (1 / 2)"
    by (intro mult_nonneg_nonneg pos(2) lf0 half)
  \<comment> \<open>the quotient\<close>
  note q2 = abs_divide_bounds[OF p1 a' l1 pos(1)]
  obtain d2 where d2: "\<bar>d2\<bar> \<le> 1 / 2 ^ 53"
      "round_double (p1 / a) = Finite (p1 / a * (1 + d2))"
    by (rule round_step[OF q2 low(2) high(2)])
  define y where "y = p1 / a * (1 + d2)"
  have "fmul (Finite x) (Finite b) = Finite p1" by (simp only: fmul.simps d1(2) p1_def)
  moreover have "py_truediv (Finite p1) (Finite a) = Inr (Finite y)"
    using a_pos by (simp add: d2(2) y_def)
  ultimately have first: "py_truediv (fmul (Finite x) (Finite b)) (Finite a) = Inr (Finite y)"
    by (simp only:)
  \<comment> \<open>the product on the way back\<close>
  have ya: "y * a = p1 * (1 + d2)" using a_pos by (simp add: y_def)
  note q3 = abs_mult_bounds[OF p1 one_plus_bounds[OF d2(1)] l1 half, folded ya]
  obtain d3 where d3: "\<bar>d3\<bar> \<le> 1 / 2 ^ 53"
      "round_double (y * a) = Finite (y * a * (1 + d3))"
    by (rule round_step[OF q3 low(3) high(3)])
  define p3 where "p3 = y * a * (1 + d3)"
  \<comment> \<open>the quotient on the way back\<close>
  have p3b: "p3 / b = x * ((1 + d1) * (1 + d2) * (1 + d3))"
    using b_pos by (simp add: p3_def ya p1_def)
  have quarter: "(0::real) \<le> 1 / 2 * (1 / 2)" by simp
  note c12 = abs_mult_bounds[OF one_plus_bounds[OF d1(1)] one_plus_bounds[OF d2(1)] half half]
  note c123 = abs_mult_bounds[OF c12 one_plus_bounds[OF d3(1)] quarter half]
  have eighth: "(0::real) \<le> 1 / 2 * (1 / 2) * (1 / 2)" by simp
  note q4 = abs_mult_bounds[OF x c123 pos(2) eighth, folded p3b]
  obtain d4 where d4: "\<bar>d4\<bar> \<le> 1 / 2 ^ 53"
      "round_double (p3 / b) = Finite (p3 / b * (1 + d4))"
    by (rule round_step[OF q4 low(4) high(4)])
  define z where "z = p3 / b * (1 + d4)"
  have "fmul (Finite y) (Finite a) = Finite p3" by (simp only: fmul.simps d3(2) p3_def)
  moreover have "py_truediv (Finite p3) (Finite b) = Inr (Finite z)"
    using b_pos by (simp add: d4(2) z_def)
  ultimately have second: "py_truediv (fmul (Finite y) (Finite a)) (Finite b) = Inr (Finite z)"
    by (simp only:)
  \<comment> \<open>the error\<close>
  have "z - x = x * ((1 + d1) * (1 + d2) * (1 + d3) * (1 + d4) - 1)"
    by (simp add: z_def p3b algebra_simps)
  then have "\<bar>z - x\<bar> = \<bar>x\<bar> * \<bar>(1 + d1) * (1 + d2) * (1 + d3) * (1 + d4) - 1\<bar>"
    by (simp only: abs_mult)
  also have "\<dots> \<le> \<bar>x\<bar> * (1 / 10 ^ 6)"
    using four_roundings[OF d1(1) d2(1) d3(1) d4(1)] by (rule mult_left_mono) simp
  finally have "\<bar>z - x\<bar> \<le> \<bar>x\<bar> / 10 ^ 6" by simp
  with first second show ?thesis by blast
qed


subsection \<open>The round trip in a linear category\<close>

text \<open>The factors of the registry lie between \<open>1e-27\<close> and \<open>1e12\<close>.\<close>

lemma factor_range:
  "linear_factors t = Some fs \<Longrightarrow> map_of fs u = Some f \<Longrightarrow> 1 / 10 ^ 27 \<le> f \<and> f \<le> 10 ^ 12"
  by (auto dest!: linear_factors_cases simp: factor_defs split: if_splits)

lemma round_double_factor:
  assumes "linear_factors t = Some fs" "map_of fs u = Some f"
  obtains f' where "round_double f = Finite f'" "1 / 10 ^ 28 \<le> f'" "f' \<le> 10 ^ 13"
proof -
  from factor_range[OF assms] have f: "1 / 10 ^ 27 \<le> f" "f \<le> 10 ^ 12" by simp_all
  have "(0::real) < 1 / 10 ^ 27" by simp
  then have f_pos: "0 < f" using f(1) by (rule less_le_trans)
  have f': "1 / 10 ^ 27 \<le> \<bar>f\<bar>" "\<bar>f\<bar> \<le> 10 ^ 12" using f f_pos by simp_all
  have n1: "(1::real) / 2 ^ 1022 \<le> 1 / 10 ^ 27" by simp
  have n2: "(10::real) ^ 12 \<le> 2 ^ 1023" by simp
  obtain d where d: "\<bar>d\<bar> \<le> 1 / 2 ^ 53" "round_double f = Finite (f * (1 + d))"
      "1 / 10 ^ 27 * (1 / 2) \<le> \<bar>f * (1 + d)\<bar>" "\<bar>f * (1 + d)\<bar> \<le> 10 ^ 12 * 2"
    by (rule round_step[OF f' n1 n2])
  have "0 < 1 + d" using d(1) by (simp add: abs_le_iff) 
  then have "0 < f * (1 + d)" using f_pos by simp
  then have "1 / 10 ^ 27 * (1 / 2) \<le> f * (1 + d)" "f * (1 + d) \<le> 10 ^ 12 * 2"
    using d(3,4) by simp_all
  then have "1 / 10 ^ 28 \<le> f * (1 + d)" "f * (1 + d) \<le> 10 ^ 13" by simp_all
  with d(2) show ?thesis by (rule that)
qed


lemma convert_units_double_linear_eq:
  "linear_factors t = Some fs \<Longrightarrow>
     convert_units_double v a b t = convert_linear_double fs v a b"
  by (frule linear_not_temperature)
     (auto simp: convert_units_double_def linear_factors_def
       split: option.splits unit_table.splits)

lemma round_double_0: "round_double 0 = Finite 0"
  by (simp add: round_double_def)

lemma round_trip_zero:
  assumes "linear_factors t = Some fs" "map_of fs a = Some fa" "map_of fs b = Some fb"
  shows "round_trip (Finite 0) a b t = Inr (Some (Finite 0))"
proof -
  obtain a' where a': "round_double fa = Finite a'" "1 / 10 ^ 28 \<le> a'" "a' \<le> 10 ^ 13"
    using assms(1,2) by (rule round_double_factor)
  obtain b' where b': "round_double fb = Finite b'" "1 / 10 ^ 28 \<le> b'" "b' \<le> 10 ^ 13"
    using assms(1,3) by (rule round_double_factor)
  have "(0::real) < 1 / 10 ^ 28" by simp
  then have "0 < a'" "0 < b'" using a'(2) b'(2) by simp_all
  then show ?thesis
    using assms
    by (simp add: round_trip_def convert_units_double_linear_eq convert_linear_double_def
          a'(1) b'(1) round_double_0)
qed

lemma round_trip_normal:
  assumes "linear_factors t = Some fs" "map_of fs a = Some fa" "map_of fs b = Some fb"
    and x: "1 / 10 ^ 250 \<le> \<bar>x\<bar>" "\<bar>x\<bar> \<le> 10 ^ 250"
  shows "\<exists>z. round_trip (Finite x) a b t = Inr (Some (Finite z)) \<and> \<bar>z - x\<bar> \<le> \<bar>x\<bar> / 10 ^ 6"
proof -
  obtain a' where a': "round_double fa = Finite a'" "1 / 10 ^ 28 \<le> a'" "a' \<le> 10 ^ 13"
    using assms(1,2) by (rule round_double_factor)
  obtain b' where b': "round_double fb = Finite b'" "1 / 10 ^ 28 \<le> b'" "b' \<le> 10 ^ 13"
    using assms(1,3) by (rule round_double_factor)
  have pos: "(0::real) < 1 / 10 ^ 28" "(0::real) \<le> 1 / 10 ^ 250" by simp_all
  have low: "(1::real) / 2 ^ 1022 \<le> 1 / 10 ^ 250 * (1 / 10 ^ 28)"
    "(1::real) / 2 ^ 1022 \<le> 1 / 10 ^ 250 * (1 / 10 ^ 28) * (1 / 2) / 10 ^ 13"
    "(1::real) / 2 ^ 1022 \<le> 1 / 10 ^ 250 * (1 / 10 ^ 28) * (1 / 2) * (1 / 2)"
    "(1::real) / 2 ^ 1022 \<le> 1 / 10 ^ 250 * (1 / 2 * (1 / 2) * (1 / 2))"
    by simp_all
  have high: "(10::real) ^ 250 * 10 ^ 13 \<le> 2 ^ 1023"
    "(10::real) ^ 250 * 10 ^ 13 * 2 / (1 / 10 ^ 28) \<le> 2 ^ 1023"
    "(10::real) ^ 250 * 10 ^ 13 * 2 * 2 \<le> 2 ^ 1023"
    "(10::real) ^ 250 * (2 * 2 * 2) \<le> 2 ^ 1023"
    by simp_all
  from round_trip_chain[OF x a'(2,3) b'(2,3) pos low high]
  obtain y z where yz:
      "py_truediv (fmul (Finite x) (Finite b')) (Finite a') = Inr (Finite y)"
      "py_truediv (fmul (Finite y) (Finite a')) (Finite b') = Inr (Finite z)"
      "\<bar>z - x\<bar> \<le> \<bar>x\<bar> / 10 ^ 6"
    by blast
  have "convert_units_double (Finite x) a b t = Inr (Some (Finite y))"
    using assms(2,3) yz(1)
    by (simp add: convert_units_double_linear_eq[OF assms(1)] convert_linear_double_def
          a'(1) b'(1) del: fmul.simps py_truediv.simps)
  moreover have "convert_units_double (Finite y) b a t = Inr (Some (Finite z))"
    using assms(2,3) yz(2)
    by (simp add: convert_units_double_linear_eq[OF assms(1)] convert_linear_double_def
          a'(1) b'(1) del: fmul.simps py_truediv.simps)
  ultimately have "round_trip (Finite x) a b t = Inr (Some (Finite z))"
    by (simp add: round_trip_def)
  with yz(3) show ?thesis by blast
qed

subsection \<open>Concrete roundings\<close>

lemma round_double_THz: "round_double 1000000000000 = Finite 1000000000000"
  using round_double_10_12 by simp

lemma exponent_2_1000: "exponent (2 ^ 1000) = 1000"
proof -
  have "log 2 ((2::real) ^ 1000) = of_nat 1000"
    by (rule log_pow_cancel) simp_all
  then have "\<lfloor>log 2 \<bar>(2::real) ^ 1000\<bar>\<rfloor> = 1000" by (simp del: log_pow_cancel)
  then show ?thesis by (simp only: exponent_def)
qed

lemma round_double_2_1000: "round_double (2 ^ 1000) = Finite (2 ^ 1000)"
proof -
  have ulp: "(2::real) powr (of_int 1000 - 52) = 2 ^ 948"
    by simp
  have q: "\<bar>(2::real) ^ 1000\<bar> / 2 ^ 948 = 2 ^ 52"
    by simp
  have r: "round_half_even (2 ^ 52) = 2 ^ 52"
    by (simp add: round_half_even_def Let_def)
  have "(2::real) ^ 1000 \<noteq> 0" by simp
  moreover have "\<not> (2::real) ^ 1024 \<le> of_int (2 ^ 52) * 2 ^ 948" by simp
  moreover have "sgn ((2::real) ^ 1000) * (of_int (2 ^ 52) * 2 ^ 948) = 2 ^ 1000" by simp
  ultimately show ?thesis
    by (simp only: round_double_def Let_def exponent_2_1000 ulp q r if_False double.inject)
qed

lemma overflow_product: "round_double (2 ^ 1000 * 10 ^ 12) = Infinity False"
proof -
  have "(2::real) ^ 1024 \<le> \<bar>2 ^ 1000 * 10 ^ 12\<bar>" by simp
  then have "round_double (2 ^ 1000 * 10 ^ 12) = Infinity (2 ^ 1000 * 10 ^ 12 < (0::real))"
    by (rule round_double_overflow)
  moreover have "\<not> 2 ^ 1000 * 10 ^ 12 < (0::real)" by simp
  ultimately show ?thesis by (simp only:)
qed

lemma lin_frequency: "linear_factors ''Frequency'' = Some frequency_factors"
  by (simp add: linear_factors_def unit_conversions_def)

lemma frequency_lookups:
  "map_of frequency_factors ''Hz'' = Some 1"
  "map_of frequency_factors ''THz'' = Some (10 ^ 12)"
  by (simp_all add: frequency_factors_def)

lemma round_trip_1_Hz_THz:
  "round_trip (Finite 1) ''Hz'' ''THz'' ''Frequency'' = Inr (Some (Finite 1))"
  by (simp add: round_trip_def convert_units_double_linear_eq[OF lin_frequency]
        convert_linear_double_def frequency_factors_def round_double_1 round_double_THz)


subsection \<open>The claim about the round trip\<close>

text \<open>
  Claim C5 says that in every linear category a conversion from a unit A to a
  unit B followed by the conversion back returns \<open>x\<close> within the relative error
  \<open>1e-6\<close>, for every \<open>x\<close>. The double \<open>2 ^ 1000\<close>, about \<open>1.07e301\<close>, converted
  from \<^verbatim>\<open>"Hz"\<close> to \<^verbatim>\<open>"THz"\<close> is multiplied by \<open>1e12\<close>; the product overflows
  to infinity, and the conversion back returns infinity.
\<close>

theorem round_trip_overflow:
  "round_double (2 ^ 1000) = Finite (2 ^ 1000)
   \<and> convert_units_double (Finite (2 ^ 1000)) ''Hz'' ''THz'' ''Frequency''
       = Inr (Some (Infinity False))
   \<and> round_trip (Finite (2 ^ 1000)) ''Hz'' ''THz'' ''Frequency'' = Inr (Some (Infinity False))
   \<and> \<not> within_relative (1 / 10 ^ 6) (Infinity False) (2 ^ 1000)"
proof -
  have product: "fmul (Finite (2 ^ 1000)) (round_double (10 ^ 12)) = Infinity False"
    by (simp only: round_double_10_12 fmul.simps overflow_product)
  have quotient: "py_truediv (Infinity False) (round_double 1) = Inr (Infinity False)"
    by (simp add: round_double_1)
  have there: "convert_units_double (Finite (2 ^ 1000)) ''Hz'' ''THz'' ''Frequency''
       = Inr (Some (Infinity False))"
    by (simp only: convert_units_double_linear_eq[OF lin_frequency] convert_linear_double_def
          frequency_lookups prod.case option.case product quotient sum.case)
  have product_back: "fmul (Infinity False) (round_double 1) = Infinity False"
    by (simp add: round_double_1)
  have quotient_back: "py_truediv (Infinity False) (round_double (10 ^ 12)) = Inr (Infinity False)"
    by (simp add: round_double_THz)
  have way_back: "convert_units_double (Infinity False) ''THz'' ''Hz'' ''Frequency''
       = Inr (Some (Infinity False))"
    by (simp only: convert_units_double_linear_eq[OF lin_frequency] convert_linear_double_def
          frequency_lookups prod.case option.case product_back quotient_back sum.case)
  have trip: "round_trip (Finite (2 ^ 1000)) ''Hz'' ''THz'' ''Frequency''
       = Inr (Some (Infinity False))"
    by (simp only: round_trip_def there way_back sum.case option.case)
  have far: "\<not> within_relative (1 / 10 ^ 6) (Infinity False) (2 ^ 1000)"
    by (simp only: within_relative_def double.case) simp
  from round_double_2_1000 there trip far show ?thesis by (intro conjI)
qed

text \<open>
  Claim C5, amended: in every linear category, for two units A and B of the
  category and every \<open>x\<close> that is zero or of magnitude between \<open>1e-250\<close> and
  \<open>1e250\<close>, the conversion of \<open>x\<close> from A to B followed by the conversion of the
  result from B to A returns a number within the relative error \<open>1e-6\<close> of \<open>x\<close>.
\<close>

theorem round_trip_within_tolerance:
  assumes "linear_factors unit_type = Some factors"
    and "map_of factors a = Some fa" and "map_of factors b = Some fb"
    and "x = 0 \<or> (1 / 10 ^ 250 \<le> \<bar>x\<bar> \<and> \<bar>x\<bar> \<le> 10 ^ 250)"
  shows "\<exists>z. round_trip (Finite x) a b unit_type = Inr (Some z)
             \<and> within_relative (1 / 10 ^ 6) z x"
proof (cases "x = 0")
  case True
  then show ?thesis
    using round_trip_zero[OF assms(1-3)] by (simp add: within_relative_def)
next
  case False
  with assms(4) have "1 / 10 ^ 250 \<le> \<bar>x\<bar>" "\<bar>x\<bar> \<le> 10 ^ 250" by simp_all
  from round_trip_normal[OF assms(1-3) this]
  obtain z where "round_trip (Finite x) a b unit_type = Inr (Some (Finite z))"
    "\<bar>z - x\<bar> \<le> \<bar>x\<bar> / 10 ^ 6" by blast
  then show ?thesis by (auto simp: within_relative_def)
qed

theorem round_trip_within_tolerance_witness:
  "linear_factors ''Frequency'' = Some frequency_factors
   \<and> map_of frequency_factors ''Hz'' = Some 1
   \<and> map_of frequency_factors ''THz'' = Some (10 ^ 12)
   \<and> 1 / 10 ^ 250 \<le> \<bar>1 :: real\<bar> \<and> \<bar>1 :: real\<bar> \<le> 10 ^ 250
   \<and> round_trip (Finite 1) ''Hz'' ''THz'' ''Frequency'' = Inr (Some (Finite 1))
   \<and> within_relative (1 / 10 ^ 6) (Finite 1) 1"
proof -
  note 1 = frequency_lookups(1) and 2 = frequency_lookups(2)
  have 3: "1 / 10 ^ 250 \<le> \<bar>1 :: real\<bar> \<and> \<bar>1 :: real\<bar> \<le> 10 ^ 250" by simp
  from round_trip_within_tolerance[OF lin_frequency 1 2 disjI2, OF 3]
  have "within_relative (1 / 10 ^ 6) (Finite 1) 1"
    by (simp only: round_trip_1_Hz_THz) simp
  with lin_frequency 1 2 3 round_trip_1_Hz_THz show ?thesis by (intro conjI) simp_all
qed


section \<open>Properties of the credential store\<close>

text \<open>The loaders, by the state of the file.\<close>

lemma load_users_cases:
  "load_users fs =
     (case USER_DB fs of
        Missing \<Rightarrow> Inr Map.empty | Malformed \<Rightarrow> Inr Map.empty
      | NotUTF8 \<Rightarrow> Inl UnicodeDecodeError | TooDeep \<Rightarrow> Inl RecursionError
      | Document users \<Rightarrow> Inr users)"
  by (simp add: load_users_def json_load_def split: json_file.splits)

lemma load_feedback_cases:
  "load_feedback fs =
     (case FEEDBACK_DB fs of
        Missing \<Rightarrow> Inr [] | Malformed \<Rightarrow> Inr []
      | NotUTF8 \<Rightarrow> Inl UnicodeDecodeError | TooDeep \<Rightarrow> Inl RecursionError
      | Document feedbacks \<Rightarrow> Inr (map fill_visible feedbacks))"
  by (simp add: load_feedback_def json_load_def split: json_file.splits)

lemma load_users_save_users: "load_users (save_users users fs) = Inr users"
  by (simp add: load_users_cases save_users_def)

lemma py_len_ascii: "py_len ''12345678'' = 8" "py_len ''short'' = 5" "py_len [] = 0"
  by (simp_all add: py_len_def)

lemma py_len_six_characters: "py_len six_characters = 6" "length six_characters = 15"
  by (simp_all add: py_len_def six_characters_def length_unit3_def)

text \<open>
  Claim C6: \<^verbatim>\<open>register_user\<close> returns \<^verbatim>\<open>False\<close> and writes nothing when the user
  name is a key of the loaded store, whatever the password; otherwise it returns
  \<^verbatim>\<open>True\<close> and writes the store extended by the entry that holds the hash of the
  password and the role \<^verbatim>\<open>"user"\<close>, so that the next load returns the extended
  store. An exception of the loader leaves \<^verbatim>\<open>register_user\<close>.
\<close>

theorem register_user_spec:
  "(load_users fs = Inr users \<and> users uname \<noteq> None \<longrightarrow>
      register_user sha256 uname pw fs = Inr (False, fs))
   \<and> (load_users fs = Inr users \<and> users uname = None \<longrightarrow>
        (\<exists>fs'. register_user sha256 uname pw fs = Inr (True, fs')
           \<and> USER_DB fs' =
               Document (users(uname \<mapsto> \<lparr>password = sha256 pw, role = ''user''\<rparr>))
           \<and> FEEDBACK_DB fs' = FEEDBACK_DB fs
           \<and> load_users fs' = Inr (users(uname \<mapsto> \<lparr>password = sha256 pw, role = ''user''\<rparr>))))
   \<and> (load_users fs = Inl e \<longrightarrow> register_user sha256 uname pw fs = Inl e)"
  by (simp add: register_user_def save_users_def hash_password_def load_users_cases)

theorem register_user_spec_witness:
  "load_users \<lparr>USER_DB = Missing, FEEDBACK_DB = Malformed\<rparr> = Inr Map.empty
   \<and> Map.empty ''alice'' = (None :: account option)
   \<and> register_user rev ''alice'' ''longpassword'' \<lparr>USER_DB = Missing, FEEDBACK_DB = Malformed\<rparr>
       = Inr (True, alice_files)
   \<and> load_users alice_files
       = Inr [''alice'' \<mapsto> \<lparr>password = rev ''longpassword'', role = ''user''\<rparr>]
   \<and> [''alice'' \<mapsto> \<lparr>password = rev ''longpassword'', role = ''user''\<rparr>] ''alice'' \<noteq> None
   \<and> register_user rev ''alice'' ''other'' alice_files = Inr (False, alice_files)
   \<and> load_users \<lparr>USER_DB = NotUTF8, FEEDBACK_DB = Malformed\<rparr> = Inl UnicodeDecodeError
   \<and> register_user rev ''alice'' ''longpassword'' \<lparr>USER_DB = NotUTF8, FEEDBACK_DB = Malformed\<rparr>
       = Inl UnicodeDecodeError"
  using register_user_spec[of "\<lparr>USER_DB = Missing, FEEDBACK_DB = Malformed\<rparr>" Map.empty
          "''alice''" rev "''longpassword''"]
    register_user_spec[of alice_files
          "[''alice'' \<mapsto> \<lparr>password = rev ''longpassword'', role = ''user''\<rparr>]"
          "''alice''" rev "''other''"]
    register_user_spec[of "\<lparr>USER_DB = NotUTF8, FEEDBACK_DB = Malformed\<rparr>" _
          "''alice''" rev "''longpassword''" UnicodeDecodeError]
  by (auto simp: load_users_cases alice_files_def)

text \<open>
  Claim C7: \<^verbatim>\<open>authenticate_user\<close> returns the stored account exactly when the user
  name is a key of the loaded store and the hash of the password equals the stored
  hash; it returns \<^verbatim>\<open>None\<close> exactly when the user name is absent or the hashes
  differ. An exception of the loader leaves \<^verbatim>\<open>authenticate_user\<close>.
\<close>

theorem authenticate_user_spec:
  "(load_users fs = Inr users \<longrightarrow>
      (authenticate_user sha256 uname pw fs = Inr (Some acct)
         \<longleftrightarrow> users uname = Some acct \<and> password acct = sha256 pw)
      \<and> (authenticate_user sha256 uname pw fs = Inr None
         \<longleftrightarrow> users uname = None
             \<or> (\<exists>stored. users uname = Some stored \<and> password stored \<noteq> sha256 pw)))
   \<and> (load_users fs = Inl e \<longrightarrow> authenticate_user sha256 uname pw fs = Inl e)"
  by (auto simp: authenticate_user_def hash_password_def split: option.splits)

theorem authenticate_user_spec_witness:
  "load_users alice_files
     = Inr [''alice'' \<mapsto> \<lparr>password = rev ''longpassword'', role = ''user''\<rparr>]
   \<and> authenticate_user rev ''alice'' ''longpassword'' alice_files
     = Inr (Some \<lparr>password = rev ''longpassword'', role = ''user''\<rparr>)
   \<and> authenticate_user rev ''alice'' ''wrong'' alice_files = Inr None
   \<and> authenticate_user rev ''bob'' ''longpassword'' alice_files = Inr None
   \<and> load_users \<lparr>USER_DB = TooDeep, FEEDBACK_DB = Missing\<rparr> = Inl RecursionError
   \<and> authenticate_user rev ''alice'' ''longpassword'' \<lparr>USER_DB = TooDeep, FEEDBACK_DB = Missing\<rparr>
     = Inl RecursionError"
  using authenticate_user_spec[of alice_files
          "[''alice'' \<mapsto> \<lparr>password = rev ''longpassword'', role = ''user''\<rparr>]"
          rev "''alice''" "''longpassword''"
          "\<lparr>password = rev ''longpassword'', role = ''user''\<rparr>"]
    authenticate_user_spec[of alice_files
          "[''alice'' \<mapsto> \<lparr>password = rev ''longpassword'', role = ''user''\<rparr>]"
          rev "''alice''" "''wrong''"]
    authenticate_user_spec[of alice_files
          "[''alice'' \<mapsto> \<lparr>password = rev ''longpassword'', role = ''user''\<rparr>]"
          rev "''bob''" "''longpassword''"]
    authenticate_user_spec[of "\<lparr>USER_DB = TooDeep, FEEDBACK_DB = Missing\<rparr>" _
          rev "''alice''" "''longpassword''" _ RecursionError]
  by (simp add: alice_files_def load_users_cases)

text \<open>
  Claim C8 says that a file that is missing or holds invalid JSON gives the empty
  store and no error. Bytes that are not UTF-8 and text nested too deeply are
  invalid JSON as well, and for them the loaders raise.
\<close>

theorem load_invalid_json_raises:
  "load_users \<lparr>USER_DB = NotUTF8, FEEDBACK_DB = TooDeep\<rparr> = Inl UnicodeDecodeError
   \<and> load_feedback \<lparr>USER_DB = NotUTF8, FEEDBACK_DB = TooDeep\<rparr> = Inl RecursionError"
  by (simp add: load_users_cases load_feedback_cases)

text \<open>
  Claim C8, amended: when the file is missing or holds text that the parser rejects
  with \<^verbatim>\<open>JSONDecodeError\<close>, \<^verbatim>\<open>load_users\<close> returns the empty dict and
  \<^verbatim>\<open>load_feedback\<close> the empty list, and no exception leaves them.
\<close>

theorem load_missing_or_malformed:
  "(USER_DB fs = Missing \<or> USER_DB fs = Malformed \<longrightarrow> load_users fs = Inr Map.empty)
   \<and> (FEEDBACK_DB fs = Missing \<or> FEEDBACK_DB fs = Malformed \<longrightarrow> load_feedback fs = Inr [])"
  by (auto simp: load_users_cases load_feedback_cases)

theorem load_missing_or_malformed_witness:
  "USER_DB \<lparr>USER_DB = Missing, FEEDBACK_DB = Malformed\<rparr> = Missing
   \<and> load_users \<lparr>USER_DB = Missing, FEEDBACK_DB = Malformed\<rparr> = Inr Map.empty
   \<and> FEEDBACK_DB \<lparr>USER_DB = Missing, FEEDBACK_DB = Malformed\<rparr> = Malformed
   \<and> load_feedback \<lparr>USER_DB = Missing, FEEDBACK_DB = Malformed\<rparr> = Inr []
   \<and> USER_DB \<lparr>USER_DB = Malformed, FEEDBACK_DB = Missing\<rparr> = Malformed
   \<and> load_users \<lparr>USER_DB = Malformed, FEEDBACK_DB = Missing\<rparr> = Inr Map.empty
   \<and> FEEDBACK_DB \<lparr>USER_DB = Malformed, FEEDBACK_DB = Missing\<rparr> = Missing
   \<and> load_feedback \<lparr>USER_DB = Malformed, FEEDBACK_DB = Missing\<rparr> = Inr []"
  using load_missing_or_malformed[of "\<lparr>USER_DB = Missing, FEEDBACK_DB = Malformed\<rparr>"]
    load_missing_or_malformed[of "\<lparr>USER_DB = Malformed, FEEDBACK_DB = Missing\<rparr>"]
  by simp

text \<open>
  Claim C10: \<^verbatim>\<open>register_user\<close> puts no condition on the password. For a user name
  that is not in the store it returns \<^verbatim>\<open>True\<close> and stores the account for every
  password, the empty one included. The minimum of 8 characters is tested by the
  REGISTER button of \<^verbatim>\<open>login_section\<close>: for a shorter password it shows an error
  and leaves the files as they are, without calling \<^verbatim>\<open>register_user\<close>; for any
  other password it registers the user or reports that the name exists.
\<close>

theorem register_user_no_password_check:
  "(load_users fs = Inr users \<and> users uname = None \<longrightarrow>
      register_user sha256 uname pw fs
        = Inr (True, fs\<lparr>USER_DB :=
                 Document (users(uname \<mapsto> \<lparr>password = sha256 pw, role = ''user''\<rparr>))\<rparr>)
      \<and> register_user sha256 uname [] fs
        = Inr (True, fs\<lparr>USER_DB :=
                 Document (users(uname \<mapsto> \<lparr>password = sha256 [], role = ''user''\<rparr>))\<rparr>))
   \<and> (py_len pw < 8 \<longrightarrow>
        login_section_register sha256 uname pw fs = Inr (''Password Must Be 8+ Characters'', fs))
   \<and> (8 \<le> py_len pw \<and> load_users fs = Inr users \<and> users uname = None \<longrightarrow>
        login_section_register sha256 uname pw fs
          = Inr (''Registration Successful!'',
                 fs\<lparr>USER_DB :=
                   Document (users(uname \<mapsto> \<lparr>password = sha256 pw, role = ''user''\<rparr>))\<rparr>))
   \<and> (8 \<le> py_len pw \<and> load_users fs = Inr users \<and> users uname \<noteq> None \<longrightarrow>
        login_section_register sha256 uname pw fs = Inr (''Username Already Exists'', fs))"
  by (auto simp: register_user_def save_users_def hash_password_def login_section_register_def)

theorem register_user_no_password_check_witness:
  "load_users alice_files
     = Inr [''alice'' \<mapsto> \<lparr>password = rev ''longpassword'', role = ''user''\<rparr>]
   \<and> [''alice'' \<mapsto> \<lparr>password = rev ''longpassword'', role = ''user''\<rparr>] ''bob'' = None
   \<and> register_user rev ''bob'' [] alice_files
        = Inr (True, alice_files\<lparr>USER_DB := Document
                 [''alice'' \<mapsto> \<lparr>password = rev ''longpassword'', role = ''user''\<rparr>,
                  ''bob'' \<mapsto> \<lparr>password = [], role = ''user''\<rparr>]\<rparr>)
   \<and> py_len six_characters < 8 \<and> 8 \<le> length six_characters
   \<and> login_section_register rev ''bob'' six_characters alice_files
        = Inr (''Password Must Be 8+ Characters'', alice_files)
   \<and> 8 \<le> py_len ''12345678''
   \<and> login_section_register rev ''bob'' ''12345678'' alice_files
        = Inr (''Registration Successful!'',
               alice_files\<lparr>USER_DB := Document
                 [''alice'' \<mapsto> \<lparr>password = rev ''longpassword'', role = ''user''\<rparr>,
                  ''bob'' \<mapsto> \<lparr>password = ''87654321'', role = ''user''\<rparr>]\<rparr>)
   \<and> [''alice'' \<mapsto> \<lparr>password = rev ''longpassword'', role = ''user''\<rparr>] ''alice'' \<noteq> None
   \<and> login_section_register rev ''alice'' ''12345678'' alice_files
        = Inr (''Username Already Exists'', alice_files)"
  using register_user_no_password_check[of alice_files
          "[''alice'' \<mapsto> \<lparr>password = rev ''longpassword'', role = ''user''\<rparr>]"
          "''bob''" rev six_characters]
    register_user_no_password_check[of alice_files
          "[''alice'' \<mapsto> \<lparr>password = rev ''longpassword'', role = ''user''\<rparr>]"
          "''bob''" rev "''12345678''"]
    register_user_no_password_check[of alice_files
          "[''alice'' \<mapsto> \<lparr>password = rev ''longpassword'', role = ''user''\<rparr>]"
          "''alice''" rev "''12345678''"]
  by (simp add: alice_files_def load_users_cases py_len_ascii py_len_six_characters)


section \<open>Properties of the review list\<close>

subsection \<open>The descending stable sort\<close>

lemma mset_sort_reverse: "mset (sort_reverse k xs) = mset xs"
  by (simp add: sort_reverse_def)

lemma sorted_sort_reverse: "sorted_wrt (\<lambda>x y. k y \<le> k x) (sort_reverse k xs)"
proof -
  have "sorted (map k (sort_key k (rev xs)))" by simp
  then have "sorted_wrt (\<lambda>x y. k x \<le> k y) (sort_key k (rev xs))"
    by (simp only: sorted_wrt_map)
  then show ?thesis
    by (simp add: sort_reverse_def sorted_wrt_rev)
qed

lemma sort_reverse_stable:
  "filter (\<lambda>y. k y = c) (sort_reverse k xs) = filter (\<lambda>y. k y = c) xs"
proof -
  have "filter (\<lambda>y. k y = c) (sort_reverse k xs)
        = rev (filter (\<lambda>y. k y = c) (sort_key k (rev xs)))"
    by (simp add: sort_reverse_def rev_filter)
  also have "\<dots> = rev (filter (\<lambda>y. k y = c) (rev xs))"
    by (simp only: sort_key_stable)
  also have "\<dots> = filter (\<lambda>y. k y = c) xs"
    by (simp add: rev_filter)
  finally show ?thesis .
qed

lemma insort_key_agree:
  "k x = k' x \<Longrightarrow> (\<And>y. y \<in> set ys \<Longrightarrow> k y = k' y) \<Longrightarrow>
     insort_key k x ys = insort_key k' x ys"
  by (induction ys) simp_all

lemma sort_key_agree:
  "(\<And>x. x \<in> set xs \<Longrightarrow> k x = k' x) \<Longrightarrow> sort_key k xs = sort_key k' xs"
proof (induction xs)
  case Nil
  show ?case by simp
next
  case (Cons x xs)
  then have "sort_key k xs = sort_key k' xs" by simp
  moreover have "insort_key k x (sort_key k' xs) = insort_key k' x (sort_key k' xs)"
    by (rule insort_key_agree) (simp_all add: Cons.prems)
  ultimately show ?case by simp
qed

subsection \<open>Filter and sort of the reviews\<close>

text \<open>After \<^verbatim>\<open>load_feedback\<close> every record has the key \<^verbatim>\<open>visible\<close>.\<close>

lemma visible_fill_visible: "\<exists>v. visible (fill_visible f) = Some v"
proof (cases "visible f")
  case None
  then have "visible (fill_visible f) = Some True" by (simp add: fill_visible_def)
  then show ?thesis by (rule exI)
next
  case (Some v)
  then have "visible (fill_visible f) = Some v" by (simp add: fill_visible_def)
  then show ?thesis by (rule exI)
qed

lemma visible_load_feedback:
  assumes "load_feedback fs = Inr feedbacks" "f \<in> set feedbacks"
  shows "visible f \<noteq> None"
proof -
  from assms(1) have "feedbacks = [] \<or> (\<exists>raw. feedbacks = map fill_visible raw)"
    by (auto simp: load_feedback_cases split: json_file.splits)
  with assms(2) obtain x where "f = fill_visible x" by auto
  with visible_fill_visible[of x] show ?thesis by blast
qed

text \<open>
  The select box offers the minimum ratings 1 to 5. From 1 on, the default 0 of a
  record without rating fails the test; and when every record has a rating the
  default is not used. In both cases the filter of the code keeps the records that
  the specification lists, and the sort finds the key \<^verbatim>\<open>rating\<close> in each of them.
\<close>

lemma review_filter_eq:
  assumes "load_feedback fs = Inr feedbacks"
    and "1 \<le> min_rating \<or> list_all (\<lambda>f. rating f \<noteq> None) feedbacks"
  shows "review_filter min_rating feedbacks = filter (spec_listed min_rating) feedbacks"
  unfolding review_filter_def
proof (rule filter_cong[OF refl])
  fix f assume f: "f \<in> set feedbacks"
  with assms(1) have "visible f \<noteq> None" by (rule visible_load_feedback)
  moreover have "rating f = None \<Longrightarrow> 1 \<le> min_rating"
    using assms(2) f by (auto simp: list_all_iff)
  ultimately show "(min_rating \<le> get_rating f \<and> get_visible f) = spec_listed min_rating f"
    by (auto simp: get_rating_def get_visible_def spec_listed_def split: option.splits)
qed

lemma review_section_highest:
  assumes "load_feedback fs = Inr feedbacks"
    and "1 \<le> min_rating \<or> list_all (\<lambda>f. rating f \<noteq> None) feedbacks"
  shows "review_section fs min_rating ''Highest Rating''
         = Inr (sort_reverse get_rating (filter (spec_listed min_rating) feedbacks))"
proof -
  let ?fl = "filter (spec_listed min_rating) feedbacks"
  have none: "\<not> list_ex (\<lambda>x. rating x = None) ?fl"
    by (auto simp: list_ex_iff spec_listed_def split: option.splits)
  have "sort_key (\<lambda>x. the (rating x)) (rev ?fl) = sort_key get_rating (rev ?fl)"
    by (rule sort_key_agree) (auto simp: get_rating_def spec_listed_def split: option.splits)
  then have keys: "sort_reverse (\<lambda>x. the (rating x)) ?fl = sort_reverse get_rating ?fl"
    by (simp add: sort_reverse_def)
  show ?thesis
  proof (cases "feedbacks = []")
    case True
    then show ?thesis using assms(1) by (simp add: review_section_def sort_reverse_def)
  next
    case False
    then show ?thesis
      using none keys assms(1)
      by (simp add: review_section_def Let_def review_filter_eq[OF assms])
  qed
qed

lemma load_review_files:
  "load_feedback review_files
     = Inr [review ''a'' 3 (Some True), review ''b'' 5 (Some True), review ''c'' 3 (Some True),
            review ''d'' 2 (Some True), review ''e'' 5 (Some False), review ''f'' 5 (Some True)]"
  by (simp add: load_feedback_cases review_files_def fill_visible_def review_def)

lemmas review_eval_defs = review_section_def load_review_files
  review_filter_def get_rating_def get_visible_def sort_reverse_def review_def

lemma review_section_example_3:
  "review_section review_files 3 ''Highest Rating''
     = Inr [review ''b'' 5 (Some True), review ''f'' 5 (Some True),
            review ''a'' 3 (Some True), review ''c'' 3 (Some True)]"
  by (simp add: review_eval_defs)

lemma review_section_example_0:
  "review_section review_files 0 ''Highest Rating''
     = Inr [review ''b'' 5 (Some True), review ''f'' 5 (Some True),
            review ''a'' 3 (Some True), review ''c'' 3 (Some True),
            review ''d'' 2 (Some True)]"
  by (simp add: review_eval_defs)

lemma review_files_all_rated:
  "list_all (\<lambda>f. rating f \<noteq> None)
     [review ''a'' 3 (Some True), review ''b'' 5 (Some True), review ''c'' 3 (Some True),
      review ''d'' 2 (Some True), review ''e'' 5 (Some False), review ''f'' 5 (Some True)]"
  by (simp add: review_def)

lemma review_section_raises:
  "review_section \<lparr>USER_DB = Missing, FEEDBACK_DB = NotUTF8\<rparr> 3 ''Highest Rating''
     = Inl UnicodeDecodeError"
  by (simp add: review_section_def load_feedback_cases)

text \<open>
  Claim C9: with the order \<^verbatim>\<open>"Highest Rating"\<close>, and a minimum rating from the
  select box or records that all have a rating, the list rendered holds exactly the
  loaded records that are visible and have at least the minimum rating, each as
  often as it was loaded; it is sorted by rating in descending order; and the
  records of any one rating stand in the order in which they were loaded, which is
  the order of submission. An exception of the loader leaves \<^verbatim>\<open>review_section\<close>.
\<close>

theorem review_section_highest_rating:
  "(load_feedback fs = Inr feedbacks
      \<and> (1 \<le> min_rating \<or> list_all (\<lambda>f. rating f \<noteq> None) feedbacks) \<longrightarrow>
      (\<exists>shown. review_section fs min_rating ''Highest Rating'' = Inr shown
         \<and> mset shown = filter_mset (spec_listed min_rating) (mset feedbacks)
         \<and> sorted_wrt (\<lambda>x y. get_rating y \<le> get_rating x) shown
         \<and> (\<forall>r. filter (\<lambda>f. get_rating f = r) shown
               = filter (\<lambda>f. get_rating f = r) (filter (spec_listed min_rating) feedbacks))))
   \<and> (load_feedback fs = Inl e \<longrightarrow> review_section fs min_rating ''Highest Rating'' = Inl e)"
proof (intro conjI impI)
  assume h: "load_feedback fs = Inr feedbacks
      \<and> (1 \<le> min_rating \<or> list_all (\<lambda>f. rating f \<noteq> None) feedbacks)"
  then have "review_section fs min_rating ''Highest Rating''
         = Inr (sort_reverse get_rating (filter (spec_listed min_rating) feedbacks))"
    by (intro review_section_highest) simp_all
  then show "\<exists>shown. review_section fs min_rating ''Highest Rating'' = Inr shown
         \<and> mset shown = filter_mset (spec_listed min_rating) (mset feedbacks)
         \<and> sorted_wrt (\<lambda>x y. get_rating y \<le> get_rating x) shown
         \<and> (\<forall>r. filter (\<lambda>f. get_rating f = r) shown
               = filter (\<lambda>f. get_rating f = r) (filter (spec_listed min_rating) feedbacks))"
    by (simp add: mset_sort_reverse sorted_sort_reverse sort_reverse_stable)
next
  assume "load_feedback fs = Inl e"
  then show "review_section fs min_rating ''Highest Rating'' = Inl e"
    by (simp add: review_section_def)
qed

theorem review_section_highest_rating_witness:
  "load_feedback review_files
     = Inr [review ''a'' 3 (Some True), review ''b'' 5 (Some True), review ''c'' 3 (Some True),
            review ''d'' 2 (Some True), review ''e'' 5 (Some False), review ''f'' 5 (Some True)]
   \<and> (1::int) \<le> 3
   \<and> review_section review_files 3 ''Highest Rating''
     = Inr [review ''b'' 5 (Some True), review ''f'' 5 (Some True),
            review ''a'' 3 (Some True), review ''c'' 3 (Some True)]
   \<and> list_all (\<lambda>f. rating f \<noteq> None)
        [review ''a'' 3 (Some True), review ''b'' 5 (Some True), review ''c'' 3 (Some True),
         review ''d'' 2 (Some True), review ''e'' 5 (Some False), review ''f'' 5 (Some True)]
   \<and> review_section review_files 0 ''Highest Rating''
     = Inr [review ''b'' 5 (Some True), review ''f'' 5 (Some True),
            review ''a'' 3 (Some True), review ''c'' 3 (Some True),
            review ''d'' 2 (Some True)]
   \<and> load_feedback \<lparr>USER_DB = Missing, FEEDBACK_DB = NotUTF8\<rparr> = Inl UnicodeDecodeError
   \<and> review_section \<lparr>USER_DB = Missing, FEEDBACK_DB = NotUTF8\<rparr> 3 ''Highest Rating''
     = Inl UnicodeDecodeError"
proof -
  have min: "(1::int) \<le> 3" by simp
  have raises: "load_feedback \<lparr>USER_DB = Missing, FEEDBACK_DB = NotUTF8\<rparr>
     = Inl UnicodeDecodeError"
    by (simp add: load_feedback_cases)
  note by_minimum = review_section_highest_rating[of review_files _ 3, THEN conjunct1, rule_format,
      OF conjI, OF load_review_files disjI1, OF min]
  note by_ratings = review_section_highest_rating[of review_files _ 0, THEN conjunct1, rule_format,
      OF conjI, OF load_review_files disjI2, OF review_files_all_rated]
  note by_error = review_section_highest_rating[of _ _ 3 UnicodeDecodeError, THEN conjunct2,
      rule_format, OF raises]
  show ?thesis
    using by_minimum by_ratings by_error
    by - (intro conjI load_review_files min review_section_example_3 review_files_all_rated
            review_section_example_0 raises review_section_raises)
qed

end
